theory Spec2Isabelle
  imports
    Complex_Main
    "HOL-Library.Product_Lexorder"
    "HOL-Library.Char_ord"
    "HOL-Library.List_Lexorder"
    "HOL-Library.Multiset"
begin

section \<open>Data model\<close>

text \<open>
  The sales pipeline of \<^verbatim>\<open>backend/scripts/download_data.py\<close> and
  \<^verbatim>\<open>backend/utils/data_loader.py\<close>, and the query layer of
  \<^verbatim>\<open>backend/services/analytics_service.py\<close> and \<^verbatim>\<open>backend/routes/products.py\<close>.

  A pandas DataFrame is a list of rows in frame order; a row is a record of the columns
  the code reads. Prices and revenues are decimal amounts and are exact rationals here:
  the rounding of binary floating point is outside the model. A calendar day is its day
  number (an integer), so that \<^verbatim>\<open>timedelta(days=n)\<close> is the integer \<open>n\<close>; the range
  limits of \<^verbatim>\<open>timedelta\<close> and of pandas timestamps are outside the model as well.
\<close>

datatype py_error = ValueError | KeyError

text \<open>One row of a transaction batch: the columns \<^verbatim>\<open>article_id\<close>, \<^verbatim>\<open>t_dat\<close>, \<^verbatim>\<open>price\<close>.\<close>

record transaction =
  tx_article_id :: int
  t_dat :: int
  price :: rat

record transactions_df =
  tx_columns :: "string list"
  tx_rows :: "transaction list"

text \<open>
  The \<^verbatim>\<open>article_id\<close> column of a persisted sales table holds integers on the real path and
  the text \<^verbatim>\<open>str(article_id)\<close> on the synthetic path; its \<^verbatim>\<open>date\<close> column holds dates on
  the real path and the text \<^verbatim>\<open>strftime('%Y-%m-%d')\<close> of the day on the synthetic path
  (\<open>Date_text d\<close> stands for that text of day \<open>d\<close>).
\<close>

datatype ident = Int_id int | Str_id string

datatype date_cell = Date_val int | Date_text int

record ('i, 'd) sales_row =
  s_article_id :: 'i
  date :: 'd
  total_revenue :: rat
  avg_price :: rat
  units_sold :: int

record ('i, 'd) sales_df =
  s_columns :: "string list"
  s_rows :: "('i, 'd) sales_row list"

section \<open>pandas operations\<close>

text \<open>
  \<^verbatim>\<open>df.groupby(key)\<close> with the defaults: one group per distinct key, groups in ascending
  key order, the rows of a group in frame order.
\<close>

definition groupby :: "('a \<Rightarrow> 'k::linorder) \<Rightarrow> 'a list \<Rightarrow> ('k \<times> 'a list) list" where
  "groupby key df = map (\<lambda>k. (k, filter (\<lambda>r. key r = k) df)) (sort (remdups (map key df)))"

text \<open>\<^verbatim>\<open>pd.concat(frames, ignore_index=True)\<close>: raises ValueError on an empty list of frames.\<close>

definition pd_concat :: "'a list list \<Rightarrow> py_error + 'a list" where
  "pd_concat frames = (if frames = [] then Inl ValueError else Inr (concat frames))"

section \<open>Sales Aggregator\<close>

text \<open>\<^verbatim>\<open>DataLoader.aggregate_sales_by_product\<close> (data_loader.py, lines 156-180).\<close>

definition agg_row :: "(int \<times> int) \<times> transaction list \<Rightarrow> (ident, date_cell) sales_row" where
  "agg_row kg = (case kg of ((a, d), g) \<Rightarrow>
     \<lparr>s_article_id = Int_id a, date = Date_val d,
      total_revenue = sum_list (map price g),
      avg_price = sum_list (map price g) / of_nat (length g),
      units_sold = int (length g)\<rparr>)"

definition aggregate_sales_by_product ::
    "transactions_df \<Rightarrow> py_error + (ident, date_cell) sales_df" where
  "aggregate_sales_by_product transactions =
     (if ''t_dat'' \<in> set (tx_columns transactions) \<and> ''article_id'' \<in> set (tx_columns transactions)
      then (if ''price'' \<in> set (tx_columns transactions)
            then Inr \<lparr>s_columns = [''article_id'', ''date'', ''total_revenue'', ''avg_price'', ''units_sold''],
                      s_rows = map agg_row
                        (groupby (\<lambda>t. (tx_article_id t, t_dat t)) (tx_rows transactions))\<rparr>
            else Inl KeyError)
      else Inr \<lparr>s_columns = [], s_rows = []\<rparr>)"

text \<open>
  The second pass of \<^verbatim>\<open>try_download_from_s3\<close> (download_data.py, lines 312-334): every
  batch is filtered to the selected ids, the non-empty filtered batches are collected and
  concatenated, and the concatenation is aggregated.
\<close>

definition relevant :: "int list \<Rightarrow> transaction list \<Rightarrow> transaction list" where
  "relevant selected_products df = filter (\<lambda>t. tx_article_id t \<in> set selected_products) df"

definition all_transactions :: "int list \<Rightarrow> transaction list list \<Rightarrow> transaction list list" where
  "all_transactions selected_products batches =
     filter (\<lambda>df. df \<noteq> []) (map (relevant selected_products) batches)"

definition second_pass ::
    "int list \<Rightarrow> transaction list list \<Rightarrow> py_error + (ident, date_cell) sales_df" where
  "second_pass selected_products batches =
     (case pd_concat (all_transactions selected_products batches) of
        Inl e \<Rightarrow> Inl e
      | Inr rows \<Rightarrow> aggregate_sales_by_product
          \<lparr>tx_columns = [''article_id'', ''t_dat'', ''price''], tx_rows = rows\<rparr>)"

section \<open>Revenue Ranker\<close>

text \<open>A row of the product catalog (\<^verbatim>\<open>products_df\<close>); further columns are carried along.\<close>

record product =
  article_id :: int
  prod_name :: "string option"
  product_type_name :: "string option"

text \<open>A row of \<^verbatim>\<open>products_with_revenue\<close>: a catalog row joined with its revenue.\<close>

record candidate = product +
  revenue :: rat

text \<open>
  First pass (download_data.py, lines 260-269): per batch the prices are summed per
  \<^verbatim>\<open>article_id\<close>, and every sum is added to \<^verbatim>\<open>product_revenue\<close>, a
  \<^verbatim>\<open>defaultdict(float)\<close> held here as an association list in insertion order.
\<close>

definition grouped :: "transaction list \<Rightarrow> (int \<times> rat) list" where
  "grouped df = map (\<lambda>kg. (fst kg, sum_list (map price (snd kg)))) (groupby tx_article_id df)"

fun add_revenue :: "(int \<times> rat) list \<Rightarrow> int \<times> rat \<Rightarrow> (int \<times> rat) list" where
  "add_revenue [] (k, v) = [(k, 0 + v)]"
| "add_revenue ((k', v') # rest) (k, v) =
     (if k' = k then (k', v' + v) # rest else (k', v') # add_revenue rest (k, v))"

definition first_pass :: "transaction list list \<Rightarrow> (int \<times> rat) list" where
  "first_pass batches = foldl (\<lambda>product_revenue df. foldl add_revenue product_revenue (grouped df)) [] batches"

text \<open>
  \<^verbatim>\<open>products_df.merge(revenue_df, on='article_id', how='inner')\<close> (lines 274-282): the
  rows of the catalog, in catalog order, that have a revenue entry. A \<^verbatim>\<open>revenue_df\<close>
  built from no entries has no columns, and the merge raises KeyError.
\<close>

definition merge_revenue :: "product list \<Rightarrow> (int \<times> rat) list \<Rightarrow> py_error + candidate list" where
  "merge_revenue products_df product_revenue =
     (if product_revenue = [] then Inl KeyError
      else Inr (concat (map (\<lambda>p. case map_of product_revenue (article_id p) of
                                   None \<Rightarrow> []
                                 | Some v \<Rightarrow> [\<lparr>article_id = article_id p, prod_name = prod_name p,
                                               product_type_name = product_type_name p, revenue = v\<rparr>])
                         products_df)))"

text \<open>
  \<^verbatim>\<open>df.nlargest(n, 'revenue')\<close> with \<^verbatim>\<open>keep='first'\<close>: the first \<open>n\<close> rows in
  descending revenue, rows of equal revenue in frame order.
\<close>

definition nlargest :: "nat \<Rightarrow> candidate list \<Rightarrow> candidate list" where
  "nlargest n df = take n (sort_key (\<lambda>c. - revenue c) df)"

text \<open>
  \<^verbatim>\<open>df.groupby('product_type_name')\<close>: rows without a product type belong to no group.
\<close>

definition groupby_product_type :: "candidate list \<Rightarrow> (string \<times> candidate list) list" where
  "groupby_product_type df =
     map (\<lambda>kg. (fst kg, map snd (snd kg)))
       (groupby fst (concat (map (\<lambda>c. case product_type_name c of
                                         None \<Rightarrow> [] | Some ty \<Rightarrow> [(ty, c)]) df)))"

text \<open>Lines 287-294: the top sellers of every product type.\<close>

definition quota_selection :: "nat \<Rightarrow> candidate list \<Rightarrow> int list" where
  "quota_selection per_category df =
     concat (map (\<lambda>tg. map article_id (nlargest per_category (snd tg))) (groupby_product_type df))"

text \<open>Lines 296-306: top-up from the overall top sellers, then truncation.\<close>

definition select_products :: "nat \<Rightarrow> nat \<Rightarrow> candidate list \<Rightarrow> int list" where
  "select_products target per_category df =
     (let selected = quota_selection per_category df;
          selected' =
            (if length selected < target
             then (let remaining = target - length selected;
                       all_top = nlargest (target + 50) df;
                       additional = filter (\<lambda>c. article_id c \<notin> set selected) all_top
                   in selected @ map article_id (take remaining additional))
             else selected)
      in take target selected')"

definition revenue_ranker ::
    "nat \<Rightarrow> nat \<Rightarrow> product list \<Rightarrow> transaction list list \<Rightarrow> py_error + int list" where
  "revenue_ranker target per_category products_df batches =
     (case merge_revenue products_df (first_pass batches) of
        Inl e \<Rightarrow> Inl e
      | Inr products_with_revenue \<Rightarrow> Inr (select_products target per_category products_with_revenue))"

definition products_per_category :: nat where
  "products_per_category = 10"

definition target_count :: nat where
  "target_count = 150"

section \<open>Synthetic sales\<close>

text \<open>Python's \<^verbatim>\<open>str\<close> on an integer.\<close>

fun str_nat :: "nat \<Rightarrow> string" where
  "str_nat n = (if n < 10 then [''0123456789'' ! n]
                else str_nat (n div 10) @ [''0123456789'' ! (n mod 10)])"

declare str_nat.simps [simp del]

definition str :: "int \<Rightarrow> string" where
  "str i = (if i < 0 then CHR ''-'' # str_nat (nat (- i)) else str_nat (nat i))"

text \<open>
  \<^verbatim>\<open>generate_sample_sales_for_products\<close> (download_data.py, lines 24-84). The random
  draws are a parameter: \<open>draw i d\<close> is the pair (\<^verbatim>\<open>units\<close>, \<^verbatim>\<open>round(price, 2)\<close>)
  computed for the product at position \<open>i\<close> on day \<open>d\<close>; \<open>today\<close> is the day of
  \<^verbatim>\<open>datetime.now()\<close>. The text of a day is kept as the day (see \<open>Date_text\<close>): the
  \<^verbatim>\<open>'%Y-%m-%d'\<close> texts are ordered as the days are.
\<close>

record sample_record =
  sr_article_id :: string
  sr_t_dat :: int
  sr_price :: rat
  units :: int

definition sample_products :: "product list \<Rightarrow> product list" where
  "sample_products products_df = (if length products_df > 200 then take 200 products_df else products_df)"

definition sample_days :: "int \<Rightarrow> int list" where
  "sample_days today = [today - 120 .. today]"

definition sales_records :: "(nat \<Rightarrow> int \<Rightarrow> int \<times> rat) \<Rightarrow> int \<Rightarrow> product list \<Rightarrow> sample_record list" where
  "sales_records draw today products_df =
     concat (map (\<lambda>ip.
        concat (map (\<lambda>d. if fst (draw (fst ip) d) > 0
                         then [\<lparr>sr_article_id = str (article_id (snd ip)), sr_t_dat = d,
                                sr_price = snd (draw (fst ip) d), units = fst (draw (fst ip) d)\<rparr>]
                         else [])
                (sample_days today)))
       (enumerate 0 (sample_products products_df)))"

definition sample_row :: "(string \<times> int) \<times> sample_record list \<Rightarrow> (ident, date_cell) sales_row" where
  "sample_row kg = (case kg of ((a, d), g) \<Rightarrow>
     \<lparr>s_article_id = Str_id a, date = Date_text d,
      total_revenue = sum_list (map (\<lambda>r. sr_price r * of_int (units r)) g),
      avg_price = sum_list (map sr_price g) / of_nat (length g),
      units_sold = sum_list (map units g)\<rparr>)"

text \<open>A DataFrame built from no records has no columns, and its \<^verbatim>\<open>groupby\<close> raises KeyError.\<close>

definition generate_sample_sales_for_products ::
    "(nat \<Rightarrow> int \<Rightarrow> int \<times> rat) \<Rightarrow> int \<Rightarrow> product list \<Rightarrow> py_error + (ident, date_cell) sales_df" where
  "generate_sample_sales_for_products draw today products_df =
     (let records = sales_records draw today products_df
      in if records = [] then Inl KeyError
         else Inr \<lparr>s_columns = [''article_id'', ''date'', ''avg_price'', ''total_revenue'', ''units_sold''],
                   s_rows = map sample_row (groupby (\<lambda>r. (sr_article_id r, sr_t_dat r)) records)\<rparr>)"

section \<open>The pipeline run\<close>

text \<open>
  What the collaborators of \<^verbatim>\<open>try_download_from_s3\<close> deliver:
  \<^item> \<open>articles\<close>: the product index read from the articles parquet file; \<open>None\<close> when no
    such file is listed or its download fails (the run returns False);
  \<^item> \<open>dataset\<close>: the batches that \<^verbatim>\<open>dataset.to_batches\<close> yields over the downloaded
    transaction files; \<open>None\<close> when no transaction file is listed or none is downloaded;
  \<^item> \<open>pyarrow_dataset\<close>: whether \<^verbatim>\<open>import pyarrow.dataset\<close> succeeds;
  \<^item> \<open>first_file\<close>: the first listed transaction file as pandas reads it (\<open>None\<close> when it
    cannot be read), used when the import fails;
  \<^item> \<open>draw\<close>, \<open>today\<close>: the random draws and the clock of the synthetic generator.
\<close>

record s3_source =
  articles :: "product list option"
  dataset :: "transaction list list option"
  pyarrow_dataset :: bool
  first_file :: "transactions_df option"
  draw :: "nat \<Rightarrow> int \<Rightarrow> int \<times> rat"
  today :: int

text \<open>The data directory: the two parquet files, absent until they are written.\<close>

record data_dir =
  products_parquet :: "product list option"
  sales_parquet :: "(ident, date_cell) sales_df option"

definition save_processed_data ::
    "product list \<Rightarrow> (ident, date_cell) sales_df \<Rightarrow> data_dir \<Rightarrow> data_dir" where
  "save_processed_data products_df sales_agg dir =
     dir\<lparr>products_parquet := Some products_df, sales_parquet := Some sales_agg\<rparr>"

text \<open>Lines 337-341: the catalog is restricted to the products that have a sales row.\<close>

definition products_with_sales :: "product list \<Rightarrow> (ident, date_cell) sales_df \<Rightarrow> py_error + product list" where
  "products_with_sales products_df sales_agg =
     (if ''article_id'' \<in> set (s_columns sales_agg)
      then Inr (filter (\<lambda>p. Int_id (article_id p) \<in> set (map s_article_id (s_rows sales_agg))) products_df)
      else Inl KeyError)"

text \<open>Lines 258-341: both passes over the dataset and the catalog filter.\<close>

definition real_pipeline ::
    "product list \<Rightarrow> transaction list list \<Rightarrow> py_error + product list \<times> (ident, date_cell) sales_df" where
  "real_pipeline products_df batches =
     (case revenue_ranker target_count products_per_category products_df batches of
        Inl e \<Rightarrow> Inl e
      | Inr selected_products \<Rightarrow>
          (case second_pass selected_products batches of
             Inl e \<Rightarrow> Inl e
           | Inr sales_agg \<Rightarrow>
               (case products_with_sales products_df sales_agg of
                  Inl e \<Rightarrow> Inl e
                | Inr products_df' \<Rightarrow> Inr (products_df', sales_agg))))"

text \<open>
  \<^verbatim>\<open>try_download_from_s3\<close> (lines 170-362): the result is the returned flag and the
  data directory. Every exception is caught by the function and makes it return False
  with nothing saved.
\<close>

definition try_download_from_s3 :: "s3_source \<Rightarrow> data_dir \<Rightarrow> bool \<times> data_dir" where
  "try_download_from_s3 src dir =
     (case articles src of
        None \<Rightarrow> (False, dir)
      | Some products_df \<Rightarrow>
          (case dataset src of
             None \<Rightarrow>
               (case generate_sample_sales_for_products (draw src) (today src) products_df of
                  Inl e \<Rightarrow> (False, dir)
                | Inr sales_agg \<Rightarrow> (True, save_processed_data products_df sales_agg dir))
           | Some batches \<Rightarrow>
               if pyarrow_dataset src
               then (case real_pipeline products_df batches of
                       Inl e \<Rightarrow> (False, dir)
                     | Inr ps \<Rightarrow> (True, save_processed_data (fst ps) (snd ps) dir))
               else (case first_file src of
                       None \<Rightarrow> (False, dir)
                     | Some transactions_df \<Rightarrow>
                         (case aggregate_sales_by_product transactions_df of
                            Inl e \<Rightarrow> (False, dir)
                          | Inr sales_agg \<Rightarrow> (True, save_processed_data products_df sales_agg dir)))))"

section \<open>Query service\<close>

text \<open>
  \<^verbatim>\<open>AnalyticsService\<close> (analytics_service.py). An empty DataFrame is the empty list of
  rows. The loaded sales rows carry their date as a timestamp, a day number.
\<close>

record analytics_service =
  products_df :: "product list"
  sales_df :: "(ident, int) sales_row list"

definition to_datetime :: "date_cell \<Rightarrow> int" where
  "to_datetime c = (case c of Date_val d \<Rightarrow> d | Date_text d \<Rightarrow> d)"

definition read_sales :: "(ident, date_cell) sales_df \<Rightarrow> (ident, int) sales_row list" where
  "read_sales f = map (\<lambda>r. \<lparr>s_article_id = s_article_id r, date = to_datetime (date r),
                            total_revenue = total_revenue r, avg_price = avg_price r,
                            units_sold = units_sold r\<rparr>) (s_rows f)"

text \<open>
  \<^verbatim>\<open>load_data\<close> (lines 28-50): it never raises; without both files the tables are empty.
  Both writers name the date column \<^verbatim>\<open>date\<close>, so the guard of line 39 holds for every
  persisted sales table that has a row, and every date is converted.
\<close>

definition load_data :: "data_dir \<Rightarrow> analytics_service" where
  "load_data dir =
     (case (products_parquet dir, sales_parquet dir) of
        (Some p, Some s) \<Rightarrow> \<lparr>products_df = p, sales_df = read_sales s\<rparr>
      | _ \<Rightarrow> \<lparr>products_df = [], sales_df = []\<rparr>)"

text \<open>\<^verbatim>\<open>astype(str)\<close> on an \<^verbatim>\<open>article_id\<close> column.\<close>

definition id_text :: "ident \<Rightarrow> string" where
  "id_text i = (case i of Int_id n \<Rightarrow> str n | Str_id s \<Rightarrow> s)"

definition get_product_by_id :: "analytics_service \<Rightarrow> string \<Rightarrow> product option" where
  "get_product_by_id svc q =
     (if products_df svc = [] then None
      else (case filter (\<lambda>p. str (article_id p) = q) (products_df svc) of
              [] \<Rightarrow> None
            | p # _ \<Rightarrow> Some p))"

record data_point =
  dp_date :: int
  dp_revenue :: rat
  dp_units_sold :: int

record sales_history =
  h_article_id :: string
  product_name :: "string option"
  data :: "data_point list"
  h_total_revenue :: rat
  total_units :: int

text \<open>\<^verbatim>\<open>get_sales_history\<close> (lines 107-170).\<close>

definition get_sales_history :: "analytics_service \<Rightarrow> string \<Rightarrow> int \<Rightarrow> sales_history" where
  "get_sales_history svc q days =
     (if sales_df svc = []
      then \<lparr>h_article_id = q, product_name = Some ''Unknown'', data = [],
            h_total_revenue = 0, total_units = 0\<rparr>
      else
        (let product = get_product_by_id svc q;
             name = (case product of None \<Rightarrow> Some ''Unknown Product'' | Some p \<Rightarrow> prod_name p);
             product_sales = filter (\<lambda>r. id_text (s_article_id r) = q) (sales_df svc)
         in if product_sales = []
            then \<lparr>h_article_id = q, product_name = name, data = [],
                  h_total_revenue = 0, total_units = 0\<rparr>
            else
              (let end_date = Max (set (map date product_sales));
                   start_date = end_date - days;
                   product_sales' = sort_key date (filter (\<lambda>r. date r \<ge> start_date) product_sales)
               in \<lparr>h_article_id = q, product_name = name,
                    data = map (\<lambda>r. \<lparr>dp_date = date r, dp_revenue = total_revenue r,
                                      dp_units_sold = units_sold r\<rparr>) product_sales',
                    h_total_revenue = sum_list (map total_revenue product_sales'),
                    total_units = sum_list (map units_sold product_sales')\<rparr>)))"

text \<open>The routes of \<^verbatim>\<open>routes/products.py\<close>; the forecast and segment services are parameters.\<close>

datatype 'a response = OK 'a | HTTP_404 string

definition get_product_sales :: "analytics_service \<Rightarrow> string \<Rightarrow> int \<Rightarrow> sales_history response" where
  "get_product_sales svc q days =
     (let sales_data = get_sales_history svc q days
      in if data sales_data = []
         then HTTP_404 ''Product not found or no sales data available''
         else OK sales_data)"

definition get_product_forecast ::
    "(string \<Rightarrow> data_point list \<Rightarrow> int \<Rightarrow> 'f) \<Rightarrow> analytics_service \<Rightarrow> string \<Rightarrow> int \<Rightarrow> 'f response" where
  "get_product_forecast generate_forecast svc q days =
     (let sales_data = get_sales_history svc q 90
      in if data sales_data = []
         then HTTP_404 ''Product not found or no sales data available''
         else OK (generate_forecast q (data sales_data) days))"

definition get_customer_segments ::
    "(string \<Rightarrow> product \<Rightarrow> 'g) \<Rightarrow> analytics_service \<Rightarrow> string \<Rightarrow> 'g response" where
  "get_customer_segments segments svc q =
     (case get_product_by_id svc q of
        None \<Rightarrow> HTTP_404 ''Product not found''
      | Some product \<Rightarrow> OK (segments q product))"

section \<open>Lemmas on grouping\<close>

lemma groupby_keys: "map fst (groupby key df) = sort (remdups (map key df))"
  by (simp add: groupby_def comp_def)

lemma groupby_keys_distinct: "distinct (map fst (groupby key df))"
  by (simp add: groupby_keys)

lemma groupby_keys_set: "set (map fst (groupby key df)) = key ` set df"
  by (simp add: groupby_keys)

lemma groupby_member:
  "(k, g) \<in> set (groupby key df) \<longleftrightarrow> k \<in> key ` set df \<and> g = filter (\<lambda>r. key r = k) df"
  by (auto simp: groupby_def)

lemma groupby_group_nonempty: "(k, g) \<in> set (groupby key df) \<Longrightarrow> g \<noteq> []"
  by (auto simp: groupby_member filter_empty_conv)

lemma sum_length_filter_keys:
  "finite K \<Longrightarrow> key ` set df \<subseteq> K \<Longrightarrow>
     (\<Sum>k\<in>K. length (filter (\<lambda>r. key r = k) df)) = length df"
proof (induction df)
  case Nil
  then show ?case by simp
next
  case (Cons x df)
  have "(\<Sum>k\<in>K. length (filter (\<lambda>r. key r = k) (x # df)))
      = (\<Sum>k\<in>K. (if key x = k then 1 else 0) + length (filter (\<lambda>r. key r = k) df))"
    by (rule sum.cong) auto
  also have "\<dots> = (\<Sum>k\<in>K. (if key x = k then 1 else 0))
                  + (\<Sum>k\<in>K. length (filter (\<lambda>r. key r = k) df))"
    by (simp add: sum.distrib)
  also have "(\<Sum>k\<in>K. (if key x = k then 1 else 0 :: nat)) = 1"
    using Cons.prems by simp
  finally show ?case using Cons by simp
qed

lemma groupby_total_length:
  "sum_list (map (\<lambda>kg. length (snd kg)) (groupby key df)) = length df"
proof -
  have "sum_list (map (\<lambda>kg. length (snd kg)) (groupby key df))
      = sum_list (map (\<lambda>k. length (filter (\<lambda>r. key r = k) df)) (sort (remdups (map key df))))"
    by (simp add: groupby_def comp_def)
  also have "\<dots> = (\<Sum>k\<in>set (sort (remdups (map key df))). length (filter (\<lambda>r. key r = k) df))"
    by (rule sum_list_distinct_conv_sum_set) simp
  also have "\<dots> = length df"
    by (simp add: sum_length_filter_keys)
  finally show ?thesis .
qed

lemma concat_all_transactions:
  "concat (all_transactions sel batches) = relevant sel (concat batches)"
  by (induction batches) (auto simp: all_transactions_def relevant_def)

lemma all_transactions_empty_iff:
  "all_transactions sel batches = [] \<longleftrightarrow> relevant sel (concat batches) = []"
  by (induction batches) (auto simp: all_transactions_def relevant_def)

lemma second_pass_eq:
  "second_pass sel batches =
     (if relevant sel (concat batches) = [] then Inl ValueError
      else Inr \<lparr>s_columns = [''article_id'', ''date'', ''total_revenue'', ''avg_price'', ''units_sold''],
                s_rows = map agg_row (groupby (\<lambda>t. (tx_article_id t, t_dat t))
                                        (relevant sel (concat batches)))\<rparr>)"
  by (simp add: second_pass_def pd_concat_def all_transactions_empty_iff
      concat_all_transactions aggregate_sales_by_product_def)

section \<open>Sales Aggregator: one row per key, merged over the batches\<close>

lemma agg_row_keys:
  "map (\<lambda>r. (s_article_id r, date r)) (map agg_row (groupby key df))
     = map (\<lambda>k. (Int_id (fst k), Date_val (snd k))) (sort (remdups (map key df)))"
  by (simp add: groupby_def agg_row_def comp_def split_beta)

lemma inj_key_cells: "inj (\<lambda>k :: int \<times> int. (Int_id (fst k), Date_val (snd k)))"
  by (auto simp: inj_on_def)

lemma agg_rows_distinct:
  "distinct (map (\<lambda>r. (s_article_id r, date r)) (map agg_row (groupby key df)))"
  unfolding agg_row_keys
  by (simp add: distinct_map inj_on_def prod_eq_iff)

lemma agg_rows_key_set:
  "set (map (\<lambda>r. (s_article_id r, date r)) (map agg_row (groupby (\<lambda>t. (tx_article_id t, t_dat t)) df)))
     = (\<lambda>t. (Int_id (tx_article_id t), Date_val (t_dat t))) ` set df"
  unfolding agg_row_keys by (auto simp: image_iff)

lemma agg_row_group:
  assumes "r \<in> set (map agg_row (groupby (\<lambda>t. (tx_article_id t, t_dat t)) df))"
  obtains a d where "s_article_id r = Int_id a" "date r = Date_val d"
    "filter (\<lambda>t. tx_article_id t = a \<and> t_dat t = d) df \<noteq> []"
    "total_revenue r = sum_list (map price (filter (\<lambda>t. tx_article_id t = a \<and> t_dat t = d) df))"
    "avg_price r = sum_list (map price (filter (\<lambda>t. tx_article_id t = a \<and> t_dat t = d) df))
                     / of_nat (length (filter (\<lambda>t. tx_article_id t = a \<and> t_dat t = d) df))"
    "units_sold r = int (length (filter (\<lambda>t. tx_article_id t = a \<and> t_dat t = d) df))"
proof -
  from assms obtain k g where kg: "(k, g) \<in> set (groupby (\<lambda>t. (tx_article_id t, t_dat t)) df)"
    and r: "r = agg_row (k, g)" by auto
  obtain a d where k: "k = (a, d)" by (cases k)
  have g: "g = filter (\<lambda>t. tx_article_id t = a \<and> t_dat t = d) df"
    using kg by (simp add: groupby_member k)
  have "g \<noteq> []" using kg by (rule groupby_group_nonempty)
  with r k g that [of a d] show thesis by (simp add: agg_row_def)
qed

lemma agg_rows_spec:
  "\<forall>r \<in> set (map agg_row (groupby (\<lambda>t. (tx_article_id t, t_dat t)) df)). \<exists>a d.
     s_article_id r = Int_id a \<and> date r = Date_val d \<and>
     total_revenue r = sum_list (map price (filter (\<lambda>t. tx_article_id t = a \<and> t_dat t = d) df)) \<and>
     avg_price r = sum_list (map price (filter (\<lambda>t. tx_article_id t = a \<and> t_dat t = d) df))
                     / of_nat (length (filter (\<lambda>t. tx_article_id t = a \<and> t_dat t = d) df)) \<and>
     units_sold r = int (length (filter (\<lambda>t. tx_article_id t = a \<and> t_dat t = d) df))"
proof
  fix r
  assume "r \<in> set (map agg_row (groupby (\<lambda>t. (tx_article_id t, t_dat t)) df))"
  then show "\<exists>a d.
     s_article_id r = Int_id a \<and> date r = Date_val d \<and>
     total_revenue r = sum_list (map price (filter (\<lambda>t. tx_article_id t = a \<and> t_dat t = d) df)) \<and>
     avg_price r = sum_list (map price (filter (\<lambda>t. tx_article_id t = a \<and> t_dat t = d) df))
                     / of_nat (length (filter (\<lambda>t. tx_article_id t = a \<and> t_dat t = d) df)) \<and>
     units_sold r = int (length (filter (\<lambda>t. tx_article_id t = a \<and> t_dat t = d) df))"
    by (rule agg_row_group) blast
qed

text \<open>
  Claim C1. The rows that pass the filter to the selected ids, taken over all batches,
  are aggregated into exactly one row per distinct (\<^verbatim>\<open>article_id\<close>, \<^verbatim>\<open>date\<close>) key among
  them; the row of a key has the sum of the key's prices as \<^verbatim>\<open>total_revenue\<close>, their mean
  as \<^verbatim>\<open>avg_price\<close> and their number as \<^verbatim>\<open>units_sold\<close>, whatever the batch boundaries are.
  The pass raises exactly when no row passes the filter (there is no key then). The three
  transactions of article 108775001 on day 19723 (2024-01-01) at prices 10, 10 and 12, read
  in two batches, give the single row with 32, 32/3 and 3.
\<close>

theorem sales_aggregator_one_row_per_key:
  "(case second_pass selected batches of
      Inl e \<Rightarrow> e = ValueError \<and> relevant selected (concat batches) = []
    | Inr sales_agg \<Rightarrow>
        relevant selected (concat batches) \<noteq> [] \<and>
        distinct (map (\<lambda>r. (s_article_id r, date r)) (s_rows sales_agg)) \<and>
        set (map (\<lambda>r. (s_article_id r, date r)) (s_rows sales_agg))
          = (\<lambda>t. (Int_id (tx_article_id t), Date_val (t_dat t))) ` set (relevant selected (concat batches)) \<and>
        (\<forall>r \<in> set (s_rows sales_agg). \<exists>a d.
           s_article_id r = Int_id a \<and> date r = Date_val d \<and>
           total_revenue r =
             sum_list (map price (filter (\<lambda>t. tx_article_id t = a \<and> t_dat t = d)
                                    (relevant selected (concat batches)))) \<and>
           avg_price r =
             sum_list (map price (filter (\<lambda>t. tx_article_id t = a \<and> t_dat t = d)
                                    (relevant selected (concat batches))))
             / of_nat (length (filter (\<lambda>t. tx_article_id t = a \<and> t_dat t = d)
                                 (relevant selected (concat batches)))) \<and>
           units_sold r =
             int (length (filter (\<lambda>t. tx_article_id t = a \<and> t_dat t = d)
                            (relevant selected (concat batches))))))
   \<and> second_pass [108775001]
       [[\<lparr>tx_article_id = 108775001, t_dat = 19723, price = 10\<rparr>,
         \<lparr>tx_article_id = 108775001, t_dat = 19723, price = 10\<rparr>],
        [\<lparr>tx_article_id = 108775001, t_dat = 19723, price = 12\<rparr>]]
     = Inr \<lparr>s_columns = [''article_id'', ''date'', ''total_revenue'', ''avg_price'', ''units_sold''],
            s_rows = [\<lparr>s_article_id = Int_id 108775001, date = Date_val 19723,
                       total_revenue = 32, avg_price = 32 / 3, units_sold = 3\<rparr>]\<rparr>"
  (is "?general \<and> ?scenario")
proof
  show ?general
  proof (cases "relevant selected (concat batches) = []")
    case True
    then show ?thesis by (simp add: second_pass_eq)
  next
    case False
    then show ?thesis
      using agg_rows_spec [of "relevant selected (concat batches)"]
      by (simp add: second_pass_eq agg_rows_distinct agg_rows_key_set del: set_map map_map)
  qed
next
  show ?scenario
    by (simp add: second_pass_eq relevant_def groupby_def agg_row_def)
qed


theorem sales_aggregator_one_row_per_key_witness:
  "\<exists>sales_agg.
     second_pass [7, 9]
       [[\<lparr>tx_article_id = 7, t_dat = 1, price = 10\<rparr>, \<lparr>tx_article_id = 8, t_dat = 1, price = 3\<rparr>],
        [\<lparr>tx_article_id = 7, t_dat = 1, price = 12\<rparr>, \<lparr>tx_article_id = 9, t_dat = 2, price = 5\<rparr>]]
       = Inr sales_agg \<and>
     map (\<lambda>r. (s_article_id r, date r)) (s_rows sales_agg)
       = [(Int_id 7, Date_val 1), (Int_id 9, Date_val 2)] \<and>
     map total_revenue (s_rows sales_agg) = [22, 5] \<and>
     map avg_price (s_rows sales_agg) = [11, 5] \<and>
     map units_sold (s_rows sales_agg) = [2, 1]"
  using sales_aggregator_one_row_per_key
    [of "[7, 9]"
        "[[\<lparr>tx_article_id = 7, t_dat = 1, price = 10\<rparr>, \<lparr>tx_article_id = 8, t_dat = 1, price = 3\<rparr>],
          [\<lparr>tx_article_id = 7, t_dat = 1, price = 12\<rparr>, \<lparr>tx_article_id = 9, t_dat = 2, price = 5\<rparr>]]"]
  by (simp add: second_pass_eq relevant_def groupby_def agg_row_def)

lemma agg_rows_units_total:
  "sum_list (map units_sold (map agg_row (groupby key df))) = int (length df)"
proof -
  have "sum_list (map units_sold (map agg_row (groupby key df)))
      = sum_list (map (\<lambda>kg. int (length (snd kg))) (groupby key df))"
    by (simp add: agg_row_def comp_def split_beta)
  also have "\<dots> = int (sum_list (map (\<lambda>kg. length (snd kg)) (groupby key df)))"
    by (simp add: comp_def flip: sum_list_of_nat)
  finally show ?thesis
    by (simp add: groupby_total_length)
qed

text \<open>
  Claim C9. The \<^verbatim>\<open>units_sold\<close> of all rows of the aggregate add up to the number of
  transaction rows, over all batches, whose \<^verbatim>\<open>article_id\<close> is selected. When no row is
  selected that number is zero and the pass raises instead of returning an aggregate.
\<close>

theorem units_sold_equals_row_count:
  "(case second_pass selected batches of
      Inl e \<Rightarrow> e = ValueError \<and> relevant selected (concat batches) = []
    | Inr sales_agg \<Rightarrow>
        sum_list (map units_sold (s_rows sales_agg))
          = int (length (relevant selected (concat batches))))"
  by (simp add: second_pass_eq agg_rows_units_total del: map_map)

theorem units_sold_equals_row_count_witness:
  "\<exists>sales_agg.
     second_pass [1, 2]
       [[\<lparr>tx_article_id = 1, t_dat = 4, price = 10\<rparr>, \<lparr>tx_article_id = 3, t_dat = 4, price = 3\<rparr>],
        [\<lparr>tx_article_id = 2, t_dat = 4, price = 12\<rparr>, \<lparr>tx_article_id = 1, t_dat = 4, price = 5\<rparr>]]
       = Inr sales_agg \<and>
     sum_list (map units_sold (s_rows sales_agg)) = 3 \<and>
     length (relevant [1, 2]
       (concat [[\<lparr>tx_article_id = 1, t_dat = 4, price = 10\<rparr>, \<lparr>tx_article_id = 3, t_dat = 4, price = 3\<rparr>],
        [\<lparr>tx_article_id = 2, t_dat = 4, price = 12\<rparr>, \<lparr>tx_article_id = 1, t_dat = 4, price = 5\<rparr>]])) = 3"
  using units_sold_equals_row_count
    [of "[1, 2]"
        "[[\<lparr>tx_article_id = 1, t_dat = 4, price = 10\<rparr>, \<lparr>tx_article_id = 3, t_dat = 4, price = 3\<rparr>],
          [\<lparr>tx_article_id = 2, t_dat = 4, price = 12\<rparr>, \<lparr>tx_article_id = 1, t_dat = 4, price = 5\<rparr>]]"]
  by (simp add: second_pass_eq relevant_def groupby_def agg_row_def)

section \<open>Query service: the sales history window\<close>




section \<open>Query service: missing tables and absent products\<close>

lemma get_sales_history_no_rows:
  "sales_df svc = [] \<or> (\<forall>r \<in> set (sales_df svc). id_text (s_article_id r) \<noteq> q)
     \<Longrightarrow> data (get_sales_history svc q days) = []"
  by (auto simp: get_sales_history_def Let_def filter_empty_conv)

lemma get_product_by_id_absent:
  "products_df svc = [] \<or> (\<forall>p \<in> set (products_df svc). str (article_id p) \<noteq> q)
     \<Longrightarrow> get_product_by_id svc q = None"
  by (auto simp: get_product_by_id_def filter_empty_conv split: list.splits)

text \<open>
  Claim C8 says that loading fails with a NotFound condition when no persisted table
  exists. \<^verbatim>\<open>load_data\<close> does not fail there: it yields two empty tables.
\<close>

theorem load_data_without_files_counterexample:
  "load_data \<lparr>products_parquet = None, sales_parquet = None\<rparr> = \<lparr>products_df = [], sales_df = []\<rparr>"
  by (simp add: load_data_def)

text \<open>
  Claim C8, amended. When a persisted table is missing, \<^verbatim>\<open>load_data\<close> yields empty
  products and sales tables instead of failing. When the sales table is empty or has no
  row of the requested \<^verbatim>\<open>article_id\<close>, the sales and forecast endpoints answer 404; when
  the products table is empty or has no row of the requested \<^verbatim>\<open>article_id\<close>, the segments
  endpoint answers 404.
\<close>

theorem missing_data_answers_404:
  "(products_parquet dir = None \<or> sales_parquet dir = None
      \<longrightarrow> load_data dir = \<lparr>products_df = [], sales_df = []\<rparr>) \<and>
   (sales_df svc = [] \<or> (\<forall>r \<in> set (sales_df svc). id_text (s_article_id r) \<noteq> q)
      \<longrightarrow> get_product_sales svc q days = HTTP_404 ''Product not found or no sales data available'' \<and>
          get_product_forecast generate_forecast svc q horizon
            = HTTP_404 ''Product not found or no sales data available'') \<and>
   (products_df svc = [] \<or> (\<forall>p \<in> set (products_df svc). str (article_id p) \<noteq> q)
      \<longrightarrow> get_customer_segments segments svc q = HTTP_404 ''Product not found'')"
proof (intro conjI impI)
  assume "products_parquet dir = None \<or> sales_parquet dir = None"
  then show "load_data dir = \<lparr>products_df = [], sales_df = []\<rparr>"
    by (auto simp: load_data_def split: option.splits)
next
  assume a: "sales_df svc = [] \<or> (\<forall>r \<in> set (sales_df svc). id_text (s_article_id r) \<noteq> q)"
  then show "get_product_sales svc q days = HTTP_404 ''Product not found or no sales data available''"
    by (simp add: get_product_sales_def get_sales_history_no_rows)
  from a show "get_product_forecast generate_forecast svc q horizon
            = HTTP_404 ''Product not found or no sales data available''"
    by (simp add: get_product_forecast_def get_sales_history_no_rows)
next
  assume "products_df svc = [] \<or> (\<forall>p \<in> set (products_df svc). str (article_id p) \<noteq> q)"
  then show "get_customer_segments segments svc q = HTTP_404 ''Product not found''"
    by (simp add: get_customer_segments_def get_product_by_id_absent)
qed

theorem missing_data_answers_404_witness:
  "load_data \<lparr>products_parquet = None, sales_parquet = None\<rparr> = \<lparr>products_df = [], sales_df = []\<rparr> \<and>
   get_product_sales (load_data \<lparr>products_parquet = None, sales_parquet = None\<rparr>) ''108775001'' 90
     = HTTP_404 ''Product not found or no sales data available'' \<and>
   get_product_forecast (\<lambda>q ps n. ps) (load_data \<lparr>products_parquet = None, sales_parquet = None\<rparr>) ''108775001'' 30
     = HTTP_404 ''Product not found or no sales data available'' \<and>
   get_customer_segments (\<lambda>q p. p) (load_data \<lparr>products_parquet = None, sales_parquet = None\<rparr>) ''108775001''
     = HTTP_404 ''Product not found''"
  using missing_data_answers_404
    [of "\<lparr>products_parquet = None, sales_parquet = None\<rparr>"
        "load_data \<lparr>products_parquet = None, sales_parquet = None\<rparr>" "''108775001''"
        90 "\<lambda>q ps n. ps" 30 "\<lambda>q p. p"]
  by (simp add: load_data_def)

section \<open>Revenue Ranker: lemmas and claims\<close>

subsection \<open>First pass\<close>

lemma map_of_add_revenue:
  "map_of (add_revenue m (k, v)) a =
     (if a = k then Some ((case map_of m k of None \<Rightarrow> 0 | Some w \<Rightarrow> w) + v) else map_of m a)"
  by (induction m "(k, v)" rule: add_revenue.induct) auto

lemma map_of_foldl_add_revenue:
  "map_of (foldl add_revenue m kvs) a =
     (if a \<in> fst ` set kvs \<or> map_of m a \<noteq> None
      then Some ((case map_of m a of None \<Rightarrow> 0 | Some w \<Rightarrow> w)
                 + sum_list (map snd (filter (\<lambda>kv. fst kv = a) kvs)))
      else None)"
proof (induction kvs arbitrary: m)
  case Nil
  then show ?case by (auto split: option.splits)
next
  case (Cons kv kvs)
  obtain k v where kv: "kv = (k, v)" by (cases kv)
  show ?case
    unfolding kv foldl_Cons Cons.IH
    by (auto simp: map_of_add_revenue image_iff split: option.splits)
qed

lemma filter_eq_distinct:
  "distinct ks \<Longrightarrow> filter (\<lambda>k. k = a) ks = (if a \<in> set ks then [a] else [])"
  by (induction ks) auto

lemma filter_key_absent: "a \<notin> f ` set xs \<Longrightarrow> filter (\<lambda>t. f t = a) xs = []"
  by (auto simp: filter_empty_conv)

lemma grouped_keys: "fst ` set (grouped df) = tx_article_id ` set df"
  by (simp add: grouped_def groupby_def image_image)

lemma grouped_sum:
  "sum_list (map snd (filter (\<lambda>kv. fst kv = a) (grouped df)))
     = sum_list (map price (filter (\<lambda>t. tx_article_id t = a) df))"
proof -
  have "filter (\<lambda>kv. fst kv = a) (grouped df)
      = map (\<lambda>k. (k, sum_list (map price (filter (\<lambda>t. tx_article_id t = k) df))))
          (filter (\<lambda>k. k = a) (sort (remdups (map tx_article_id df))))"
    by (simp add: grouped_def groupby_def filter_map comp_def)
  also have "filter (\<lambda>k. k = a) (sort (remdups (map tx_article_id df)))
      = (if a \<in> tx_article_id ` set df then [a] else [])"
    by (simp add: filter_eq_distinct)
  finally show ?thesis
    by (simp add: filter_key_absent)
qed

lemma map_of_foldl_batches:
  "map_of (foldl (\<lambda>acc df. foldl add_revenue acc (grouped df)) m batches) a =
     (if a \<in> tx_article_id ` set (concat batches) \<or> map_of m a \<noteq> None
      then Some ((case map_of m a of None \<Rightarrow> 0 | Some w \<Rightarrow> w)
                 + sum_list (map price (filter (\<lambda>t. tx_article_id t = a) (concat batches))))
      else None)"
proof (induction batches arbitrary: m)
  case Nil
  then show ?case by (auto split: option.splits)
next
  case (Cons df batches)
  show ?case
    unfolding foldl_Cons Cons.IH
    by (auto simp: map_of_foldl_add_revenue grouped_keys grouped_sum filter_key_absent split: option.splits)
qed

lemma map_of_first_pass:
  "map_of (first_pass batches) a =
     (if a \<in> tx_article_id ` set (concat batches)
      then Some (sum_list (map price (filter (\<lambda>t. tx_article_id t = a) (concat batches))))
      else None)"
  by (simp add: first_pass_def map_of_foldl_batches)

lemma first_pass_empty_iff: "first_pass batches = [] \<longleftrightarrow> concat batches = []"
proof
  assume "first_pass batches = []"
  then have "\<forall>a. map_of (first_pass batches) a = None" by simp
  then have "tx_article_id ` set (concat batches) = {}"
    unfolding map_of_first_pass by (auto split: if_splits)
  then show "concat batches = []" by simp
next
  assume c: "concat batches = []"
  have "\<forall>a. map_of (first_pass batches) a = None"
    unfolding map_of_first_pass c by simp
  then show "first_pass batches = []"
    by (cases "first_pass batches") (auto split: if_splits)
qed


subsection \<open>Merge\<close>

lemma merge_revenue_Inr:
  "merge_revenue catalog (first_pass batches) = Inr df \<Longrightarrow>
     concat batches \<noteq> [] \<and>
     map article_id df
       = filter (\<lambda>a. a \<in> tx_article_id ` set (concat batches)) (map article_id catalog) \<and>
     (\<forall>c \<in> set df. article_id c \<in> tx_article_id ` set (concat batches) \<and>
        revenue c = sum_list (map price (filter (\<lambda>t. tx_article_id t = article_id c) (concat batches))))"
proof -
  assume a: "merge_revenue catalog (first_pass batches) = Inr df"
  then have ne: "concat batches \<noteq> []"
    by (auto simp: merge_revenue_def first_pass_empty_iff split: if_splits)
  from a have df: "df = concat (map (\<lambda>p. case map_of (first_pass batches) (article_id p) of
                                   None \<Rightarrow> []
                                 | Some v \<Rightarrow> [\<lparr>article_id = article_id p, prod_name = prod_name p,
                                               product_type_name = product_type_name p, revenue = v\<rparr>])
                         catalog)"
    by (auto simp: merge_revenue_def split: if_splits)
  have ids: "map article_id df
       = filter (\<lambda>a. a \<in> tx_article_id ` set (concat batches)) (map article_id catalog)"
    unfolding df by (induction catalog) (auto simp: map_of_first_pass)
  have revs: "\<forall>c \<in> set df. article_id c \<in> tx_article_id ` set (concat batches) \<and>
        revenue c = sum_list (map price (filter (\<lambda>t. tx_article_id t = article_id c) (concat batches)))"
    unfolding df by (auto simp: map_of_first_pass split: option.splits if_splits)
  from ne ids revs show ?thesis by blast
qed

lemma merge_revenue_Inl:
  "merge_revenue catalog (first_pass batches) = Inl e \<Longrightarrow> e = KeyError \<and> concat batches = []"
  by (auto simp: merge_revenue_def first_pass_empty_iff split: if_splits)

subsection \<open>Groups by product type\<close>

lemma typed_rows_filter:
  "map snd (filter (\<lambda>r. fst r = ty)
      (concat (map (\<lambda>c. case product_type_name c of None \<Rightarrow> [] | Some ty \<Rightarrow> [(ty, c)]) df)))
     = filter (\<lambda>c. product_type_name c = Some ty) df"
  by (induction df) (auto split: option.splits)

lemma typed_rows_member:
  "(ty, c) \<in> set (concat (map (\<lambda>c. case product_type_name c of None \<Rightarrow> [] | Some ty \<Rightarrow> [(ty, c)]) df))
     \<longleftrightarrow> c \<in> set df \<and> product_type_name c = Some ty"
  by (induction df) (auto split: option.splits)

lemma typed_rows_keys:
  "fst ` set (concat (map (\<lambda>c. case product_type_name c of None \<Rightarrow> [] | Some ty \<Rightarrow> [(ty, c)]) df))
     = {ty. \<exists>c \<in> set df. product_type_name c = Some ty}"
proof (intro set_eqI iffI)
  fix ty
  assume "ty \<in> fst ` set (concat (map (\<lambda>c. case product_type_name c of None \<Rightarrow> [] | Some ty \<Rightarrow> [(ty, c)]) df))"
  then obtain c where "(ty, c) \<in> set (concat (map (\<lambda>c. case product_type_name c of None \<Rightarrow> [] | Some ty \<Rightarrow> [(ty, c)]) df))"
    by force
  then show "ty \<in> {ty. \<exists>c \<in> set df. product_type_name c = Some ty}"
    unfolding typed_rows_member by blast
next
  fix ty
  assume "ty \<in> {ty. \<exists>c \<in> set df. product_type_name c = Some ty}"
  then obtain c where "c \<in> set df" "product_type_name c = Some ty" by blast
  then have "(ty, c) \<in> set (concat (map (\<lambda>c. case product_type_name c of None \<Rightarrow> [] | Some ty \<Rightarrow> [(ty, c)]) df))"
    unfolding typed_rows_member by blast
  then show "ty \<in> fst ` set (concat (map (\<lambda>c. case product_type_name c of None \<Rightarrow> [] | Some ty \<Rightarrow> [(ty, c)]) df))"
    by force
qed

lemma groupby_product_type_eq:
  "groupby_product_type df =
     map (\<lambda>ty. (ty, filter (\<lambda>c. product_type_name c = Some ty) df))
       (map fst (groupby_product_type df))"
  by (simp add: groupby_product_type_def groupby_def comp_def typed_rows_filter)

lemma groupby_product_type_keys:
  "distinct (map fst (groupby_product_type df)) \<and> sorted (map fst (groupby_product_type df)) \<and>
   set (map fst (groupby_product_type df)) = {ty. \<exists>c \<in> set df. product_type_name c = Some ty}"
  by (simp add: groupby_product_type_def groupby_def comp_def typed_rows_keys [symmetric])

lemma quota_selection_eq:
  "quota_selection n df =
     concat (map (\<lambda>ty. map article_id (nlargest n (filter (\<lambda>c. product_type_name c = Some ty) df)))
               (map fst (groupby_product_type df)))"
  unfolding quota_selection_def
  by (subst groupby_product_type_eq) (simp add: comp_def)

subsection \<open>The n largest rows\<close>


lemma nlargest_descending: "sorted_wrt (\<lambda>x y. revenue y \<le> revenue x) (nlargest n g)"
proof -
  have "sorted (map (\<lambda>c. - revenue c) (sort_key (\<lambda>c. - revenue c) g))" by simp
  then have "sorted (take n (map (\<lambda>c. - revenue c) (sort_key (\<lambda>c. - revenue c) g)))"
    by (rule sorted_wrt_take)
  then show ?thesis
    by (simp add: nlargest_def take_map sorted_map)
qed




lemma nlargest_subset: "set (nlargest n g) \<subseteq> set g"
  by (auto simp: nlargest_def dest: in_set_takeD)





subsection \<open>Selection\<close>

lemma quota_selection_subset: "set (quota_selection n df) \<subseteq> article_id ` set df"
proof -
  have "set (nlargest n (filter (\<lambda>c. product_type_name c = Some ty) df)) \<subseteq> set df" for ty
    using nlargest_subset [of n "filter (\<lambda>c. product_type_name c = Some ty) df"] by auto
  then show ?thesis
    unfolding quota_selection_eq by auto
qed

lemma select_products_subset: "set (select_products target n df) \<subseteq> article_id ` set df"
proof -
  have a: "set (map article_id (take r (filter P (nlargest m df)))) \<subseteq> article_id ` set df" for r P m
    using nlargest_subset [of m df] by (auto dest!: in_set_takeD)
  show ?thesis
    using quota_selection_subset [of n df] a
    unfolding select_products_def Let_def
    by (auto dest!: in_set_takeD split: if_splits)
qed

lemma select_products_length: "length (select_products target n df) \<le> target"
  by (simp add: select_products_def Let_def)

text \<open>
  Claim C4 says that every selected product has a positive summed revenue. A product
  whose only transaction has price 0 is selected with revenue 0.
\<close>

theorem zero_priced_product_is_selected_counterexample:
  "revenue_ranker target_count products_per_category
     [\<lparr>article_id = 108775001, prod_name = Some ''Running Shoes'', product_type_name = Some ''Shoes''\<rparr>]
     [[\<lparr>tx_article_id = 108775001, t_dat = 19723, price = 0\<rparr>]]
     = Inr [108775001] \<and>
   map_of (first_pass [[\<lparr>tx_article_id = 108775001, t_dat = 19723, price = 0\<rparr>]]) 108775001 = Some 0"
  by (simp add: revenue_ranker_def merge_revenue_def first_pass_def grouped_def groupby_def
      select_products_def quota_selection_def groupby_product_type_def nlargest_def
      target_count_def products_per_category_def)

text \<open>
  Claim C4, amended. The ranker is a function of its arguments. It raises exactly when
  there is no transaction row at all; otherwise it returns at most \<open>target\<close> ids, and
  every returned id is in the catalog and has at least one transaction; its revenue is
  the sum of the prices of its transactions, which is non-negative when no price is
  negative and positive when every price is positive.
\<close>

theorem ranker_selection_bounded_and_sold:
  "(case revenue_ranker target n catalog batches of
      Inl e \<Rightarrow> e = KeyError \<and> concat batches = []
    | Inr selected \<Rightarrow>
        length selected \<le> target \<and>
        (\<forall>a \<in> set selected.
           a \<in> article_id ` set catalog \<and>
           (\<exists>t \<in> set (concat batches). tx_article_id t = a) \<and>
           map_of (first_pass batches) a
             = Some (sum_list (map price (filter (\<lambda>t. tx_article_id t = a) (concat batches)))) \<and>
           ((\<forall>t \<in> set (concat batches). 0 \<le> price t)
              \<longrightarrow> 0 \<le> sum_list (map price (filter (\<lambda>t. tx_article_id t = a) (concat batches)))) \<and>
           ((\<forall>t \<in> set (concat batches). 0 < price t)
              \<longrightarrow> 0 < sum_list (map price (filter (\<lambda>t. tx_article_id t = a) (concat batches))))))"
proof (cases "merge_revenue catalog (first_pass batches)")
  case (Inl e)
  then show ?thesis
    using merge_revenue_Inl [OF Inl] by (simp add: revenue_ranker_def)
next
  case (Inr df)
  note m = merge_revenue_Inr [OF Inr]
  have sub: "set (select_products target n df) \<subseteq> article_id ` set df"
    by (rule select_products_subset)
  have ids: "article_id ` set df \<subseteq> article_id ` set catalog \<inter> tx_article_id ` set (concat batches)"
  proof -
    have "set (map article_id df) \<subseteq> set (map article_id catalog) \<inter> tx_article_id ` set (concat batches)"
      using m by auto
    then show ?thesis by simp
  qed
  have pos: "0 < sum_list (map price (filter (\<lambda>t. tx_article_id t = a) (concat batches)))"
    if "a \<in> tx_article_id ` set (concat batches)" "\<forall>t \<in> set (concat batches). 0 < price t" for a
  proof -
    from that(1) have "filter (\<lambda>t. tx_article_id t = a) (concat batches) \<noteq> []"
      by (auto simp: filter_empty_conv simp del: set_concat)
    moreover have "\<forall>x \<in> set (map price (filter (\<lambda>t. tx_article_id t = a) (concat batches))). 0 < x"
      using that(2) by (auto simp del: set_concat)
    ultimately show ?thesis
      by (metis sum_list_nonneg_eq_0_iff sum_list_nonneg map_is_Nil_conv less_le last_in_set)
  qed
  have nonneg: "0 \<le> sum_list (map price (filter (\<lambda>t. tx_article_id t = a) (concat batches)))"
    if "\<forall>t \<in> set (concat batches). 0 \<le> price t" for a
    using that by (intro sum_list_nonneg) (auto simp del: set_concat)
  show ?thesis
    using sub ids pos nonneg
    by (auto simp: revenue_ranker_def Inr select_products_length map_of_first_pass
        simp del: set_concat)
qed

lemma nlargest_ids_distinct:
  "distinct (map article_id g) \<Longrightarrow> distinct (map article_id (nlargest n g))"
proof -
  assume "distinct (map article_id g)"
  moreover have "mset (map article_id (sort_key (\<lambda>c. - revenue c) g)) = mset (map article_id g)"
    by simp
  ultimately have "distinct (map article_id (sort_key (\<lambda>c. - revenue c) g))"
    by (metis mset_eq_imp_distinct_iff)
  then show ?thesis
    by (simp add: nlargest_def take_map [symmetric] distinct_take del: take_map)
qed

lemma quota_ids_distinct:
  assumes d: "distinct (map article_id df)"
  shows "distinct tys \<Longrightarrow>
     distinct (concat (map (\<lambda>ty. map article_id
                 (nlargest n (filter (\<lambda>c. product_type_name c = Some ty) df))) tys))"
proof (induction tys)
  case Nil
  then show ?case by simp
next
  case (Cons ty tys)
  have inj: "inj_on article_id (set df)" using d by (simp add: distinct_map)
  have one: "distinct (map article_id (nlargest n (filter (\<lambda>c. product_type_name c = Some ty) df)))"
    using d by (intro nlargest_ids_distinct) (simp add: distinct_map_filter)
  have disj: "set (map article_id (nlargest n (filter (\<lambda>c. product_type_name c = Some ty) df)))
      \<inter> set (concat (map (\<lambda>ty. map article_id
                 (nlargest n (filter (\<lambda>c. product_type_name c = Some ty) df))) tys)) = {}"
  proof (rule ccontr)
    assume "\<not> ?thesis"
    then obtain a where a1: "a \<in> set (map article_id (nlargest n (filter (\<lambda>c. product_type_name c = Some ty) df)))"
      and a2: "a \<in> set (concat (map (\<lambda>ty. map article_id
                 (nlargest n (filter (\<lambda>c. product_type_name c = Some ty) df))) tys))"
      by blast
    from a1 obtain c where c: "c \<in> set df" "product_type_name c = Some ty" "article_id c = a"
      using nlargest_subset [of n "filter (\<lambda>c. product_type_name c = Some ty) df"] by auto
    from a2 obtain ty' c' where c': "ty' \<in> set tys" "c' \<in> set df" "product_type_name c' = Some ty'"
      "article_id c' = a"
      using nlargest_subset [of n "filter (\<lambda>c. product_type_name c = Some ty') df" for ty'] by auto
    from inj c c' have "c = c'" by (auto dest: inj_onD)
    with c c' Cons.prems show False by auto
  qed
  from one disj Cons show ?case by simp
qed

lemma quota_selection_distinct:
  "distinct (map article_id df) \<Longrightarrow> distinct (quota_selection n df)"
  unfolding quota_selection_eq
  using groupby_product_type_keys [of df] by (intro quota_ids_distinct) auto

lemma selected_rows_count_le:
  assumes "distinct (map article_id xs)"
  shows "length (filter (\<lambda>c. article_id c \<in> set sel) xs) \<le> length sel"
proof -
  have "distinct (map article_id (filter (\<lambda>c. article_id c \<in> set sel) xs))"
    using assms by (simp add: distinct_map_filter)
  then have "length (filter (\<lambda>c. article_id c \<in> set sel) xs)
      = card (set (map article_id (filter (\<lambda>c. article_id c \<in> set sel) xs)))"
    by (metis distinct_card length_map)
  also have "\<dots> \<le> card (set sel)"
    by (intro card_mono) auto
  also have "\<dots> \<le> length sel" by (rule card_length)
  finally show ?thesis .
qed

lemma selected_rows_count_eq:
  assumes "distinct (map article_id xs)" "distinct sel" "set sel \<subseteq> article_id ` set xs"
  shows "length (filter (\<lambda>c. article_id c \<in> set sel) xs) = length sel"
proof -
  have "distinct (map article_id (filter (\<lambda>c. article_id c \<in> set sel) xs))"
    using assms(1) by (simp add: distinct_map_filter)
  then have "length (filter (\<lambda>c. article_id c \<in> set sel) xs)
      = card (set (map article_id (filter (\<lambda>c. article_id c \<in> set sel) xs)))"
    by (metis distinct_card length_map)
  also have "set (map article_id (filter (\<lambda>c. article_id c \<in> set sel) xs)) = set sel"
    using assms(3) by auto
  also have "card (set sel) = length sel"
    using assms(2) by (rule distinct_card)
  finally show ?thesis .
qed

lemma take_filter_take:
  assumes "r \<le> length (filter P (take m s)) \<or> length s \<le> m"
  shows "take r (filter P (take m s)) = take r (filter P s)"
proof -
  have split: "filter P s = filter P (take m s) @ filter P (drop m s)"
    by (metis append_take_drop_id filter_append)
  from assms show ?thesis
  proof
    assume "r \<le> length (filter P (take m s))"
    then show ?thesis by (simp add: split)
  next
    assume "length s \<le> m"
    then show ?thesis by simp
  qed
qed

lemma top_up_eq:
  assumes d: "distinct (map article_id df)" and lt: "length sel < target"
  shows "take (target - length sel) (filter (\<lambda>c. article_id c \<notin> set sel) (nlargest (target + 50) df))
       = take (target - length sel) (filter (\<lambda>c. article_id c \<notin> set sel) (nlargest (length df) df))"
proof -
  let ?s = "sort_key (\<lambda>c. - revenue c) df"
  let ?P = "\<lambda>c. article_id c \<notin> set sel"
  have ds: "distinct (map article_id ?s)"
    using d by (metis mset_eq_imp_distinct_iff mset_map mset_sort)
  have "target - length sel \<le> length (filter ?P (take (target + 50) ?s)) \<or> length ?s \<le> target + 50"
  proof (cases "length ?s \<le> target + 50")
    case True
    then show ?thesis by simp
  next
    case False
    then have len: "length (take (target + 50) ?s) = target + 50" by simp
    have "distinct (map article_id (take (target + 50) ?s))"
      using ds by (simp add: take_map [symmetric] distinct_take del: take_map)
    then have "length (filter (\<lambda>c. article_id c \<in> set sel) (take (target + 50) ?s)) \<le> length sel"
      by (rule selected_rows_count_le)
    moreover have "length (filter ?P (take (target + 50) ?s))
        + length (filter (\<lambda>c. article_id c \<in> set sel) (take (target + 50) ?s)) = target + 50"
      using sum_length_filter_compl [of "\<lambda>c. article_id c \<in> set sel" "take (target + 50) ?s"] len
      by simp
    ultimately show ?thesis by linarith
  qed
  then have "take (target - length sel) (filter ?P (take (target + 50) ?s))
      = take (target - length sel) (filter ?P ?s)"
    by (rule take_filter_take)
  then show ?thesis by (simp add: nlargest_def)
qed

lemma select_products_top_up:
  assumes d: "distinct (map article_id df)" and lt: "length (quota_selection n df) < target"
  shows "select_products target n df
       = quota_selection n df @
         map article_id (take (target - length (quota_selection n df))
           (filter (\<lambda>c. article_id c \<notin> set (quota_selection n df)) (nlargest (length df) df)))"
    and "length (select_products target n df) = min target (length df)"
proof -
  let ?sel = "quota_selection n df"
  let ?s = "sort_key (\<lambda>c. - revenue c) df"
  let ?P = "\<lambda>c. article_id c \<notin> set ?sel"
  let ?add = "take (target - length ?sel) (filter ?P (nlargest (length df) df))"
  have eq: "select_products target n df = take target (?sel @ map article_id ?add)"
    using lt top_up_eq [OF d lt] by (simp add: select_products_def Let_def)
  have "length (?sel @ map article_id ?add) \<le> target"
    using lt by simp
  with eq show sel: "select_products target n df = ?sel @ map article_id ?add" by simp
  have ds: "distinct (map article_id ?s)"
    using d by (metis mset_eq_imp_distinct_iff mset_map mset_sort)
  have "length (filter (\<lambda>c. article_id c \<in> set ?sel) ?s) = length ?sel"
    using ds quota_selection_distinct [OF d] quota_selection_subset [of n df]
    by (intro selected_rows_count_eq) auto
  moreover have "length (filter ?P ?s) + length (filter (\<lambda>c. article_id c \<in> set ?sel) ?s) = length df"
    using sum_length_filter_compl [of "\<lambda>c. article_id c \<in> set ?sel" ?s] by simp
  ultimately have "length (filter ?P ?s) = length df - length ?sel" by linarith
  moreover have "length ?sel \<le> length df"
    using \<open>length (filter (\<lambda>c. article_id c \<in> set ?sel) ?s) = length ?sel\<close>
      length_filter_le [of "\<lambda>c. article_id c \<in> set ?sel" ?s] by simp
  ultimately show "length (select_products target n df) = min target (length df)"
    using lt unfolding sel by (simp add: nlargest_def)
qed

theorem ranker_selection_bounded_and_sold_witness:
  "revenue_ranker 2 1
     [\<lparr>article_id = 2, prod_name = None, product_type_name = Some ''A''\<rparr>,
      \<lparr>article_id = 1, prod_name = None, product_type_name = Some ''A''\<rparr>,
      \<lparr>article_id = 3, prod_name = None, product_type_name = Some ''B''\<rparr>,
      \<lparr>article_id = 9, prod_name = None, product_type_name = Some ''C''\<rparr>]
     [[\<lparr>tx_article_id = 2, t_dat = 1, price = 5\<rparr>, \<lparr>tx_article_id = 1, t_dat = 1, price = 4\<rparr>],
      [\<lparr>tx_article_id = 3, t_dat = 1, price = 12\<rparr>, \<lparr>tx_article_id = 2, t_dat = 2, price = 1\<rparr>]]
     = Inr [2, 3] \<and>
   map_of (first_pass
     [[\<lparr>tx_article_id = 2, t_dat = 1, price = 5\<rparr>, \<lparr>tx_article_id = 1, t_dat = 1, price = 4\<rparr>],
      [\<lparr>tx_article_id = 3, t_dat = 1, price = 12\<rparr>, \<lparr>tx_article_id = 2, t_dat = 2, price = 1\<rparr>]]) 2
     = Some 6"
  using ranker_selection_bounded_and_sold
    [where target = 2 and n = 1 and catalog =
        "[\<lparr>article_id = 2, prod_name = None, product_type_name = Some ''A''\<rparr>,
          \<lparr>article_id = 1, prod_name = None, product_type_name = Some ''A''\<rparr>,
          \<lparr>article_id = 3, prod_name = None, product_type_name = Some ''B''\<rparr>,
          \<lparr>article_id = 9, prod_name = None, product_type_name = Some ''C''\<rparr>]"
        and batches =
        "[[\<lparr>tx_article_id = 2, t_dat = 1, price = 5\<rparr>, \<lparr>tx_article_id = 1, t_dat = 1, price = 4\<rparr>],
          [\<lparr>tx_article_id = 3, t_dat = 1, price = 12\<rparr>, \<lparr>tx_article_id = 2, t_dat = 2, price = 1\<rparr>]]"]
  by (simp add: revenue_ranker_def merge_revenue_def first_pass_def grouped_def groupby_def
      select_products_def quota_selection_def groupby_product_type_def nlargest_def)

text \<open>
  Claim C5. The catalog has unique \<^verbatim>\<open>article_id\<close>s. When the quota selection is shorter
  than the target, the ranker returns the quota selection followed by the candidates not
  yet selected, taken in descending revenue until the target is reached or none is left:
  the selection has \<open>min target N\<close> ids, where \<open>N\<close> is the number of candidates, the
  catalog products with at least one transaction.
\<close>

theorem top_up_reaches_target_or_exhausts:
  assumes "distinct (map article_id catalog)"
    and "merge_revenue catalog (first_pass batches) = Inr df"
    and "length (quota_selection n df) < target"
  shows "revenue_ranker target n catalog batches
           = Inr (quota_selection n df @
                  map article_id (take (target - length (quota_selection n df))
                    (filter (\<lambda>c. article_id c \<notin> set (quota_selection n df))
                       (nlargest (length df) df)))) \<and>
         length (select_products target n df)
           = min target (length (filter (\<lambda>p. \<exists>t \<in> set (concat batches). tx_article_id t = article_id p)
                                   catalog)) \<and>
         length df = length (filter (\<lambda>p. \<exists>t \<in> set (concat batches). tx_article_id t = article_id p)
                               catalog) \<and>
         mset (nlargest (length df) df) = mset df \<and>
         sorted_wrt (\<lambda>x y. revenue y \<le> revenue x) (nlargest (length df) df)"
proof -
  note m = merge_revenue_Inr [OF assms(2)]
  have ids: "map article_id df
       = filter (\<lambda>a. a \<in> tx_article_id ` set (concat batches)) (map article_id catalog)"
    using m by blast
  have d: "distinct (map article_id df)"
    unfolding ids using assms(1) by simp
  have "length df = length (map article_id df)" by simp
  also have "\<dots> = length (filter (\<lambda>p. article_id p \<in> tx_article_id ` set (concat batches)) catalog)"
    unfolding ids by (simp add: filter_map comp_def)
  also have "(\<lambda>p. article_id p \<in> tx_article_id ` set (concat batches))
      = (\<lambda>p. \<exists>t \<in> set (concat batches). tx_article_id t = article_id p)"
    by (rule ext) (metis (no_types) image_iff)
  finally have len: "length df
      = length (filter (\<lambda>p. \<exists>t \<in> set (concat batches). tx_article_id t = article_id p) catalog)" .
  have all: "mset (nlargest (length df) df) = mset df"
    by (simp add: nlargest_def)
  show ?thesis
    using select_products_top_up [OF d assms(3)] len all nlargest_descending [of "length df" df]
    by (simp add: revenue_ranker_def assms(2))
qed

theorem top_up_reaches_target_or_exhausts_witness:
  "revenue_ranker target_count products_per_category
     [\<lparr>article_id = 2, prod_name = None, product_type_name = Some ''A''\<rparr>,
      \<lparr>article_id = 5, prod_name = None, product_type_name = None\<rparr>,
      \<lparr>article_id = 3, prod_name = None, product_type_name = Some ''B''\<rparr>,
      \<lparr>article_id = 9, prod_name = None, product_type_name = Some ''C''\<rparr>]
     [[\<lparr>tx_article_id = 2, t_dat = 1, price = 5\<rparr>, \<lparr>tx_article_id = 5, t_dat = 1, price = 4\<rparr>],
      [\<lparr>tx_article_id = 3, t_dat = 1, price = 12\<rparr>, \<lparr>tx_article_id = 2, t_dat = 2, price = 1\<rparr>]]
     = Inr [2, 3, 5] \<and>
   quota_selection products_per_category
     [\<lparr>article_id = 2, prod_name = None, product_type_name = Some ''A'', revenue = 6\<rparr>,
      \<lparr>article_id = 5, prod_name = None, product_type_name = None, revenue = 4\<rparr>,
      \<lparr>article_id = 3, prod_name = None, product_type_name = Some ''B'', revenue = 12\<rparr>]
     = [2, 3]"
  using top_up_reaches_target_or_exhausts
    [of "[\<lparr>article_id = 2, prod_name = None, product_type_name = Some ''A''\<rparr>,
          \<lparr>article_id = 5, prod_name = None, product_type_name = None\<rparr>,
          \<lparr>article_id = 3, prod_name = None, product_type_name = Some ''B''\<rparr>,
          \<lparr>article_id = 9, prod_name = None, product_type_name = Some ''C''\<rparr>]"
        "[[\<lparr>tx_article_id = 2, t_dat = 1, price = 5\<rparr>, \<lparr>tx_article_id = 5, t_dat = 1, price = 4\<rparr>],
          [\<lparr>tx_article_id = 3, t_dat = 1, price = 12\<rparr>, \<lparr>tx_article_id = 2, t_dat = 2, price = 1\<rparr>]]"
        "[\<lparr>article_id = 2, prod_name = None, product_type_name = Some ''A'', revenue = 6\<rparr>,
          \<lparr>article_id = 5, prod_name = None, product_type_name = None, revenue = 4\<rparr>,
          \<lparr>article_id = 3, prod_name = None, product_type_name = Some ''B'', revenue = 12\<rparr>]"
        products_per_category target_count]
  by (simp add: merge_revenue_def first_pass_def grouped_def groupby_def
      quota_selection_def groupby_product_type_def nlargest_def
      target_count_def products_per_category_def)

section \<open>Synthetic sales: lemmas\<close>

subsection \<open>Decimal text of an integer\<close>

lemma digit_value:
  "n < 10 \<Longrightarrow> (of_char (''0123456789'' ! n) :: nat) - 48 = n"
proof -
  assume "n < 10"
  then consider "n = 0" | "n = 1" | "n = 2" | "n = 3" | "n = 4" | "n = 5" | "n = 6" | "n = 7"
    | "n = 8" | "n = 9" by atomize_elim presburger
  then show ?thesis by cases simp_all
qed

lemma digit_not_minus: "n < 10 \<Longrightarrow> ''0123456789'' ! n \<noteq> CHR ''-''"
proof -
  assume "n < 10"
  then consider "n = 0" | "n = 1" | "n = 2" | "n = 3" | "n = 4" | "n = 5" | "n = 6" | "n = 7"
    | "n = 8" | "n = 9" by atomize_elim presburger
  then show ?thesis by cases simp_all
qed

lemma str_nat_value:
  "foldl (\<lambda>a c. 10 * a + ((of_char c :: nat) - 48)) 0 (str_nat n) = n"
proof (induction n rule: str_nat.induct)
  case (1 n)
  show ?case
  proof (cases "n < 10")
    case True
    then show ?thesis
      by (subst str_nat.simps) (simp add: digit_value)
  next
    case False
    with 1 show ?thesis
      by (subst str_nat.simps) (simp add: digit_value)
  qed
qed

lemma str_nat_inj: "str_nat m = str_nat n \<Longrightarrow> m = n"
  by (metis str_nat_value)

lemma str_nat_hd: "\<exists>c cs. str_nat n = c # cs \<and> c \<noteq> CHR ''-''"
proof (induction n rule: str_nat.induct)
  case (1 n)
  show ?case
  proof (cases "n < 10")
    case True
    then show ?thesis
      by (subst str_nat.simps) (simp add: digit_not_minus)
  next
    case False
    with 1 obtain c cs where "str_nat (n div 10) = c # cs" "c \<noteq> CHR ''-''" by blast
    with False show ?thesis
      by (subst str_nat.simps) simp
  qed
qed

lemma str_inj: "str i = str j \<Longrightarrow> i = j"
proof -
  assume a: "str i = str j"
  obtain c cs where ci: "str_nat (nat i) = c # cs" "c \<noteq> CHR ''-''" using str_nat_hd by blast
  obtain d ds where cj: "str_nat (nat j) = d # ds" "d \<noteq> CHR ''-''" using str_nat_hd by blast
  show ?thesis
  proof (cases "i < 0")
    case True
    show ?thesis
    proof (cases "j < 0")
      case True
      with \<open>i < 0\<close> a have "str_nat (nat (- i)) = str_nat (nat (- j))" by (simp add: str_def)
      then have "nat (- i) = nat (- j)" by (rule str_nat_inj)
      with True \<open>i < 0\<close> show ?thesis by simp
    next
      case False
      with \<open>i < 0\<close> a cj show ?thesis by (simp add: str_def)
    qed
  next
    case False
    show ?thesis
    proof (cases "j < 0")
      case True
      with \<open>\<not> i < 0\<close> a ci show ?thesis by (auto simp: str_def)
    next
      case False
      with \<open>\<not> i < 0\<close> a have "str_nat (nat i) = str_nat (nat j)" by (simp add: str_def)
      then have "nat i = nat j" by (rule str_nat_inj)
      with False \<open>\<not> i < 0\<close> show ?thesis by simp
    qed
  qed
qed

subsection \<open>Grouping rows of distinct keys\<close>

lemma filter_key_distinct:
  "distinct (map key xs) \<Longrightarrow> x \<in> set xs \<Longrightarrow> filter (\<lambda>r. key r = key x) xs = [x]"
proof (induction xs)
  case Nil
  then show ?case by simp
next
  case (Cons y xs)
  then show ?case by (auto simp: filter_empty_conv image_iff)
qed

lemma groupby_distinct_keys:
  "distinct (map key xs) \<Longrightarrow> (k, g) \<in> set (groupby key xs) \<Longrightarrow> \<exists>x \<in> set xs. k = key x \<and> g = [x]"
  by (auto simp: groupby_member filter_key_distinct)

subsection \<open>The synthetic records\<close>

lemma concat_map_if:
  "concat (map (\<lambda>d. if Q d then [f d] else []) ds) = map f (filter Q ds)"
  by (induction ds) auto

lemma concat_map_product:
  "concat (map (\<lambda>x. map (\<lambda>d. g (x, d)) (filter (\<lambda>d. Q (x, d)) ds)) xs)
     = map g (filter Q (List.product xs ds))"
  by (induction xs) (simp_all add: filter_map comp_def)

lemma sales_records_eq:
  "sales_records rnd now catalog =
     map (\<lambda>ipd. \<lparr>sr_article_id = str (article_id (snd (fst ipd))), sr_t_dat = snd ipd,
                  sr_price = snd (rnd (fst (fst ipd)) (snd ipd)),
                  units = fst (rnd (fst (fst ipd)) (snd ipd))\<rparr>)
       (filter (\<lambda>ipd. 0 < fst (rnd (fst (fst ipd)) (snd ipd)))
          (List.product (enumerate 0 (sample_products catalog)) (sample_days now)))"
  unfolding sales_records_def concat_map_if
  using concat_map_product
    [of "\<lambda>ipd. \<lparr>sr_article_id = str (article_id (snd (fst ipd))), sr_t_dat = snd ipd,
                  sr_price = snd (rnd (fst (fst ipd)) (snd ipd)),
                  units = fst (rnd (fst (fst ipd)) (snd ipd))\<rparr>"
        "\<lambda>ipd. 0 < fst (rnd (fst (fst ipd)) (snd ipd))"
        "sample_days now" "enumerate 0 (sample_products catalog)"]
  by simp

lemma product_map_fst:
  "List.product (map f xs) ys = map (\<lambda>xy. (f (fst xy), snd xy)) (List.product xs ys)"
  by (induction xs) (simp_all add: comp_def)

lemma sample_products_distinct:
  "distinct (map article_id catalog) \<Longrightarrow> distinct (map article_id (sample_products catalog))"
  by (simp add: sample_products_def take_map [symmetric] distinct_take del: take_map)

lemma sample_products_subset: "set (sample_products catalog) \<subseteq> set catalog"
  by (auto simp: sample_products_def dest: in_set_takeD)

lemma sales_records_keys_distinct:
  assumes "distinct (map article_id catalog)"
  shows "distinct (map (\<lambda>r. (sr_article_id r, sr_t_dat r)) (sales_records rnd now catalog))"
proof -
  let ?enum = "enumerate 0 (sample_products catalog)"
  have "distinct (map (\<lambda>p. str (article_id p)) (sample_products catalog))"
    using sample_products_distinct [OF assms]
    by (auto simp: distinct_map inj_on_def dest: str_inj)
  moreover have "map (\<lambda>ip. str (article_id (snd ip))) ?enum
      = map (\<lambda>p. str (article_id p)) (map snd ?enum)"
    by (simp only: map_map comp_def)
  ultimately have "distinct (map (\<lambda>ip. str (article_id (snd ip))) ?enum)"
    by (simp only: map_snd_enumerate)
  moreover have "distinct (sample_days now)" by (simp add: sample_days_def)
  ultimately have "distinct (List.product (map (\<lambda>ip. str (article_id (snd ip))) ?enum) (sample_days now))"
    by (rule distinct_product)
  moreover have "List.product (map (\<lambda>ip. str (article_id (snd ip))) ?enum) (sample_days now)
      = map (\<lambda>ipd. (str (article_id (snd (fst ipd))), snd ipd)) (List.product ?enum (sample_days now))"
    by (rule product_map_fst)
  ultimately have "distinct (map (\<lambda>ipd. (str (article_id (snd (fst ipd))), snd ipd))
      (List.product ?enum (sample_days now)))" by simp
  then have "distinct (map (\<lambda>ipd. (str (article_id (snd (fst ipd))), snd ipd))
      (filter (\<lambda>ipd. 0 < fst (rnd (fst (fst ipd)) (snd ipd))) (List.product ?enum (sample_days now))))"
    by (rule distinct_map_filter)
  then show ?thesis
    by (simp add: sales_records_eq comp_def)
qed

lemma sales_records_units: "r \<in> set (sales_records rnd now catalog) \<Longrightarrow> 0 < units r"
  by (auto simp: sales_records_eq)

lemma sales_records_ids:
  assumes "r \<in> set (sales_records rnd now catalog)"
  shows "sr_article_id r \<in> (\<lambda>p. str (article_id p)) ` set (sample_products catalog)"
proof -
  from assms obtain ipd where ipd: "fst ipd \<in> set (enumerate 0 (sample_products catalog))"
    and r: "sr_article_id r = str (article_id (snd (fst ipd)))"
    unfolding sales_records_eq by auto
  from ipd have "snd (fst ipd) \<in> set (map snd (enumerate 0 (sample_products catalog)))"
    by (simp only: set_map) (rule imageI)
  then have "snd (fst ipd) \<in> set (sample_products catalog)"
    by (simp only: map_snd_enumerate)
  with r show ?thesis by blast
qed

lemma sales_records_nonempty:
  assumes "catalog \<noteq> []" "0 < fst (rnd 0 now)"
  shows "sales_records rnd now catalog \<noteq> []"
proof -
  from assms(1) have "sample_products catalog \<noteq> []"
    by (auto simp: sample_products_def)
  then have "(0, sample_products catalog ! 0) \<in> set (enumerate 0 (sample_products catalog))"
    by (simp add: in_set_enumerate_eq)
  moreover have "now \<in> set (sample_days now)" by (simp add: sample_days_def)
  ultimately have "((0, sample_products catalog ! 0), now)
      \<in> set (filter (\<lambda>ipd. 0 < fst (rnd (fst (fst ipd)) (snd ipd)))
          (List.product (enumerate 0 (sample_products catalog)) (sample_days now)))"
    using assms(2) by simp
  then have "filter (\<lambda>ipd. 0 < fst (rnd (fst (fst ipd)) (snd ipd)))
          (List.product (enumerate 0 (sample_products catalog)) (sample_days now)) \<noteq> []"
    by (metis empty_iff list.set(1))
  then show ?thesis
    unfolding sales_records_eq by (simp only: map_is_Nil_conv not_False_eq_True)
qed

subsection \<open>Rows of the persisted sales table\<close>

lemma agg_rows_consistent:
  "r \<in> set (map agg_row (groupby key df))
     \<Longrightarrow> 1 \<le> units_sold r \<and> total_revenue r = avg_price r * of_int (units_sold r)"
proof -
  assume "r \<in> set (map agg_row (groupby key df))"
  then obtain k g where kg: "(k, g) \<in> set (groupby key df)" and r: "r = agg_row (k, g)" by auto
  have "g \<noteq> []" using kg by (rule groupby_group_nonempty)
  then have "1 \<le> int (length g)" by (cases g) simp_all
  with r show ?thesis
    by (cases k) (simp add: agg_row_def)
qed

lemma aggregate_rows_consistent:
  "aggregate_sales_by_product df = Inr sales \<Longrightarrow> r \<in> set (s_rows sales)
     \<Longrightarrow> 1 \<le> units_sold r \<and> total_revenue r = avg_price r * of_int (units_sold r)"
  using agg_rows_consistent [of r "\<lambda>t. (tx_article_id t, t_dat t)" "tx_rows df"]
  by (auto simp: aggregate_sales_by_product_def split: if_splits)

lemma second_pass_rows_consistent:
  "second_pass sel batches = Inr sales \<Longrightarrow> r \<in> set (s_rows sales)
     \<Longrightarrow> 1 \<le> units_sold r \<and> total_revenue r = avg_price r * of_int (units_sold r)"
  by (auto simp: second_pass_def split: sum.splits dest: aggregate_rows_consistent)

lemma sample_rows_consistent:
  assumes "distinct (map article_id catalog)"
    and "generate_sample_sales_for_products rnd now catalog = Inr sales"
    and "r \<in> set (s_rows sales)"
  shows "1 \<le> units_sold r \<and> total_revenue r = avg_price r * of_int (units_sold r)"
proof -
  let ?recs = "sales_records rnd now catalog"
  from assms(2,3) obtain k g where kg: "(k, g) \<in> set (groupby (\<lambda>r. (sr_article_id r, sr_t_dat r)) ?recs)"
    and r: "r = sample_row (k, g)"
    by (auto simp: generate_sample_sales_for_products_def Let_def split: if_splits)
  from groupby_distinct_keys [OF sales_records_keys_distinct [OF assms(1)] kg]
  obtain x where x: "x \<in> set ?recs" "g = [x]" by blast
  from x(1) have "0 < units x" by (rule sales_records_units)
  with r x(2) show ?thesis
    by (cases k) (simp add: sample_row_def)
qed

section \<open>The persisted tables of a run\<close>

lemma real_pipeline_Inr:
  "real_pipeline catalog batches = Inr ps \<Longrightarrow>
     \<exists>sel. revenue_ranker target_count products_per_category catalog batches = Inr sel \<and>
           second_pass sel batches = Inr (snd ps) \<and>
           fst ps = filter (\<lambda>p. Int_id (article_id p) \<in> set (map s_article_id (s_rows (snd ps)))) catalog"
  by (auto simp: real_pipeline_def products_with_sales_def split: sum.splits if_splits)

text \<open>
  Claim C3. The catalog has unique \<^verbatim>\<open>article_id\<close>s. On every path of a successful run
  (the real pipeline, the synthetic generator, the single-file fallback) every row of the
  persisted sales table has \<^verbatim>\<open>units_sold\<close> at least 1 and \<^verbatim>\<open>total_revenue\<close> equal to
  \<^verbatim>\<open>avg_price\<close> times \<^verbatim>\<open>units_sold\<close> (exactly, in the rationals).
\<close>

theorem persisted_sales_rows_consistent:
  assumes "\<forall>catalog. articles src = Some catalog \<longrightarrow> distinct (map article_id catalog)"
    and "try_download_from_s3 src dir = (True, dir')"
  shows "\<exists>sales. sales_parquet dir' = Some sales \<and>
           (\<forall>r \<in> set (s_rows sales).
              1 \<le> units_sold r \<and> total_revenue r = avg_price r * of_int (units_sold r))"
proof -
  from assms(2) obtain catalog where cat: "articles src = Some catalog"
    by (auto simp: try_download_from_s3_def split: option.splits)
  with assms(1) have d: "distinct (map article_id catalog)" by simp
  show ?thesis
  proof (cases "dataset src")
    case None
    with assms(2) cat obtain sales
      where g: "generate_sample_sales_for_products (draw src) (today src) catalog = Inr sales"
        and s: "sales_parquet dir' = Some sales"
      by (auto simp: try_download_from_s3_def save_processed_data_def split: sum.splits)
    from sample_rows_consistent [OF d g] s show ?thesis by blast
  next
    case (Some batches)
    show ?thesis
    proof (cases "pyarrow_dataset src")
      case True
      with assms(2) cat Some obtain ps
        where r: "real_pipeline catalog batches = Inr ps" and s: "sales_parquet dir' = Some (snd ps)"
        by (auto simp: try_download_from_s3_def save_processed_data_def split: sum.splits)
      from real_pipeline_Inr [OF r] obtain sel where "second_pass sel batches = Inr (snd ps)"
        by blast
      from second_pass_rows_consistent [OF this] s show ?thesis by blast
    next
      case False
      with assms(2) cat Some obtain df sales
        where a: "aggregate_sales_by_product df = Inr sales" and s: "sales_parquet dir' = Some sales"
        by (auto simp: try_download_from_s3_def save_processed_data_def split: sum.splits option.splits)
      from aggregate_rows_consistent [OF a] s show ?thesis by blast
    qed
  qed
qed

lemma sample_sales_Inr:
  "sales_records rnd now catalog \<noteq> [] \<Longrightarrow>
     generate_sample_sales_for_products rnd now catalog
       = Inr \<lparr>s_columns = [''article_id'', ''date'', ''avg_price'', ''total_revenue'', ''units_sold''],
              s_rows = map sample_row (groupby (\<lambda>r. (sr_article_id r, sr_t_dat r))
                                         (sales_records rnd now catalog))\<rparr>"
  by (simp add: generate_sample_sales_for_products_def Let_def)

theorem persisted_sales_rows_consistent_witness:
  "fst (try_download_from_s3
     \<lparr>articles = Some [\<lparr>article_id = 108775001, prod_name = None, product_type_name = None\<rparr>,
                       \<lparr>article_id = 108775002, prod_name = None, product_type_name = None\<rparr>],
      dataset = None, pyarrow_dataset = True, first_file = None,
      draw = (\<lambda>i d. (5, 30)), today = 19723\<rparr>
     \<lparr>products_parquet = None, sales_parquet = None\<rparr>) \<and>
   (\<exists>sales. sales_parquet (snd (try_download_from_s3
     \<lparr>articles = Some [\<lparr>article_id = 108775001, prod_name = None, product_type_name = None\<rparr>,
                       \<lparr>article_id = 108775002, prod_name = None, product_type_name = None\<rparr>],
      dataset = None, pyarrow_dataset = True, first_file = None,
      draw = (\<lambda>i d. (5, 30)), today = 19723\<rparr>
     \<lparr>products_parquet = None, sales_parquet = None\<rparr>)) = Some sales \<and>
           (\<forall>r \<in> set (s_rows sales).
              1 \<le> units_sold r \<and> total_revenue r = avg_price r * of_int (units_sold r)))"
proof -
  let ?src = "\<lparr>articles = Some [\<lparr>article_id = 108775001, prod_name = None, product_type_name = None\<rparr>,
                       \<lparr>article_id = 108775002, prod_name = None, product_type_name = None\<rparr>],
      dataset = None, pyarrow_dataset = True, first_file = None,
      draw = (\<lambda>i d. (5, 30)), today = 19723\<rparr>"
  let ?dir = "\<lparr>products_parquet = None, sales_parquet = None\<rparr>"
  have ne: "sales_records (\<lambda>i d. (5, 30)) 19723
      [\<lparr>article_id = 108775001, prod_name = None, product_type_name = None\<rparr>,
       \<lparr>article_id = 108775002, prod_name = None, product_type_name = None\<rparr>] \<noteq> []"
    by (rule sales_records_nonempty) simp_all
  have ok: "fst (try_download_from_s3 ?src ?dir)"
    by (simp add: try_download_from_s3_def sample_sales_Inr [OF ne])
  then have run: "try_download_from_s3 ?src ?dir = (True, snd (try_download_from_s3 ?src ?dir))"
    by (simp add: prod_eq_iff)
  have hyp: "\<forall>catalog. articles ?src = Some catalog \<longrightarrow> distinct (map article_id catalog)"
    by simp
  from persisted_sales_rows_consistent [OF hyp run] ok show ?thesis by blast
qed

subsection \<open>The catalog and the sales table of a run\<close>

lemma sample_sales_ids:
  assumes "generate_sample_sales_for_products rnd now catalog = Inr sales"
    and "r \<in> set (s_rows sales)"
  shows "\<exists>p \<in> set (sample_products catalog). s_article_id r = Str_id (str (article_id p))"
    and "\<exists>d. date r = Date_text d"
proof -
  let ?recs = "sales_records rnd now catalog"
  from assms obtain k g where kg: "(k, g) \<in> set (groupby (\<lambda>r. (sr_article_id r, sr_t_dat r)) ?recs)"
    and r: "r = sample_row (k, g)"
    by (auto simp: generate_sample_sales_for_products_def Let_def split: if_splits)
  from kg obtain x where x: "x \<in> set ?recs" "k = (sr_article_id x, sr_t_dat x)"
    by (auto simp: groupby_member)
  from sales_records_ids [OF x(1)] r x(2)
  show "\<exists>p \<in> set (sample_products catalog). s_article_id r = Str_id (str (article_id p))"
    by (auto simp: sample_row_def)
  from r x(2) show "\<exists>d. date r = Date_text d"
    by (simp add: sample_row_def)
qed

lemma second_pass_ids:
  assumes "second_pass sel batches = Inr sales"
  shows "s_article_id ` set (s_rows sales) = Int_id ` tx_article_id ` set (relevant sel (concat batches))"
    and "r \<in> set (s_rows sales) \<Longrightarrow> \<exists>d. date r = Date_val d"
proof -
  from assms have rows: "s_rows sales = map agg_row (groupby (\<lambda>t. (tx_article_id t, t_dat t))
                                        (relevant sel (concat batches)))"
    by (auto simp: second_pass_eq split: if_splits)
  have "fst ` set (map (\<lambda>r. (s_article_id r, date r)) (s_rows sales))
      = fst ` (\<lambda>t. (Int_id (tx_article_id t), Date_val (t_dat t))) ` set (relevant sel (concat batches))"
    unfolding rows agg_rows_key_set ..
  then show "s_article_id ` set (s_rows sales)
      = Int_id ` tx_article_id ` set (relevant sel (concat batches))"
    by (simp add: image_image)
  show "\<exists>d. date r = Date_val d" if "r \<in> set (s_rows sales)"
    using that agg_rows_spec [of "relevant sel (concat batches)"] unfolding rows by blast
qed

lemma revenue_ranker_subset_catalog:
  assumes "revenue_ranker target n catalog batches = Inr sel"
  shows "set sel \<subseteq> article_id ` set catalog"
proof -
  from assms obtain df where m: "merge_revenue catalog (first_pass batches) = Inr df"
    and s: "sel = select_products target n df"
    by (auto simp: revenue_ranker_def split: sum.splits)
  have "set (map article_id df) \<subseteq> set (map article_id catalog)"
    using merge_revenue_Inr [OF m] by auto
  then have "article_id ` set df \<subseteq> article_id ` set catalog" by simp
  with select_products_subset [of target n df] s show ?thesis by blast
qed

lemma real_pipeline_products_have_sales:
  assumes "real_pipeline catalog batches = Inr ps"
  shows "Int_id ` article_id ` set (fst ps) = s_article_id ` set (s_rows (snd ps))"
proof -
  from real_pipeline_Inr [OF assms] obtain sel
    where rk: "revenue_ranker target_count products_per_category catalog batches = Inr sel"
      and sp: "second_pass sel batches = Inr (snd ps)"
      and ps: "fst ps = filter (\<lambda>p. Int_id (article_id p) \<in> set (map s_article_id (s_rows (snd ps)))) catalog"
    by blast
  have sel: "set sel \<subseteq> article_id ` set catalog"
    using rk by (rule revenue_ranker_subset_catalog)
  have "s_article_id ` set (s_rows (snd ps)) = Int_id ` tx_article_id ` set (relevant sel (concat batches))"
    using sp by (rule second_pass_ids(1))
  moreover have "tx_article_id ` set (relevant sel (concat batches)) \<subseteq> set sel"
    unfolding relevant_def by (rule image_subsetI) simp
  ultimately have sub: "s_article_id ` set (s_rows (snd ps)) \<subseteq> Int_id ` article_id ` set catalog"
    using sel by blast
  show ?thesis
  proof
    show "Int_id ` article_id ` set (fst ps) \<subseteq> s_article_id ` set (s_rows (snd ps))"
      unfolding ps by auto
    show "s_article_id ` set (s_rows (snd ps)) \<subseteq> Int_id ` article_id ` set (fst ps)"
    proof
      fix i
      assume i: "i \<in> s_article_id ` set (s_rows (snd ps))"
      with sub obtain p where p: "p \<in> set catalog" "i = Int_id (article_id p)" by blast
      with i have "p \<in> set (fst ps)" unfolding ps by simp
      with p show "i \<in> Int_id ` article_id ` set (fst ps)" by blast
    qed
  qed
qed

text \<open>
  Claim C2 on the synthetic path. No transaction file is listed and the catalog has 201
  products with the ids 1 to 201. The run succeeds and persists all 201 products, while
  the persisted sales table has rows for the first 200 products only: product 201 is in
  the products table and has no sales row. On the real path the filter of lines 337-341
  makes the two id sets equal (\<open>real_pipeline_products_have_sales\<close>).
\<close>

theorem catalog_not_filtered_on_synthetic_path:
  "fst (try_download_from_s3
     \<lparr>articles = Some (map (\<lambda>i. \<lparr>article_id = int i + 1, prod_name = None, product_type_name = None\<rparr>)
                          [0..<201]),
      dataset = None, pyarrow_dataset = True, first_file = None,
      draw = (\<lambda>i d. (5, 30)), today = 19723\<rparr>
     \<lparr>products_parquet = None, sales_parquet = None\<rparr>) \<and>
   (case snd (try_download_from_s3
     \<lparr>articles = Some (map (\<lambda>i. \<lparr>article_id = int i + 1, prod_name = None, product_type_name = None\<rparr>)
                          [0..<201]),
      dataset = None, pyarrow_dataset = True, first_file = None,
      draw = (\<lambda>i d. (5, 30)), today = 19723\<rparr>
     \<lparr>products_parquet = None, sales_parquet = None\<rparr>) of dir' \<Rightarrow>
      (case (products_parquet dir', sales_parquet dir') of
         (Some products, Some sales) \<Rightarrow>
           length products = 201 \<and>
           \<lparr>article_id = 201, prod_name = None, product_type_name = None\<rparr> \<in> set products \<and>
           str 201 \<notin> id_text ` s_article_id ` set (s_rows sales)
       | _ \<Rightarrow> False))"
proof -
  let ?mk = "\<lambda>i. \<lparr>article_id = int i + 1, prod_name = None, product_type_name = None\<rparr>"
  let ?catalog = "map ?mk [0..<201]"
  let ?rnd = "\<lambda>(i::nat) (d::int). (5::int, 30::rat)"
  have ne: "sales_records ?rnd 19723 ?catalog \<noteq> []"
    by (rule sales_records_nonempty) simp_all
  note gen = sample_sales_Inr [OF ne]
  have sample: "sample_products ?catalog = map ?mk [0..<200]"
    by (simp add: sample_products_def take_map)
  have last: "\<lparr>article_id = 201, prod_name = None, product_type_name = None\<rparr> \<in> set ?catalog"
  proof -
    have "?mk 200 \<in> ?mk ` set [0..<201]" by (rule imageI) simp
    then show ?thesis by simp
  qed
  have absent: "str 201 \<notin> id_text ` s_article_id ` set (map sample_row
      (groupby (\<lambda>r. (sr_article_id r, sr_t_dat r)) (sales_records ?rnd 19723 ?catalog)))"
  proof
    assume "str 201 \<in> id_text ` s_article_id ` set (map sample_row
      (groupby (\<lambda>r. (sr_article_id r, sr_t_dat r)) (sales_records ?rnd 19723 ?catalog)))"
    then obtain r where r: "r \<in> set (map sample_row
      (groupby (\<lambda>r. (sr_article_id r, sr_t_dat r)) (sales_records ?rnd 19723 ?catalog)))"
      and t: "str 201 = id_text (s_article_id r)" by blast
    from sample_sales_ids(1) [OF gen, of r] r obtain p
      where p: "p \<in> set (sample_products ?catalog)" "s_article_id r = Str_id (str (article_id p))"
      by auto
    from t p(2) have "article_id p = 201" by (auto simp: id_text_def dest: str_inj)
    with p(1) show False unfolding sample by auto
  qed
  show ?thesis
    using last absent
    by (simp add: try_download_from_s3_def gen save_processed_data_def del: upt_Suc map_map set_map)
qed





end
